theory Spec2Isabelle
  imports Main "HOL-Library.Word"
begin

section \<open>Values of the runtime\<close>

text \<open>
  An \<open>error\<close> value of the program is either a plain message (what \<open>errors.New\<close> and
  \<open>fmt.Errorf\<close> without \<open>%w\<close> build) or the value built by \<open>errors.Join\<close>, which keeps
  the joined errors themselves, in order. A nil error is \<open>None\<close> of \<open>error option\<close>.
\<close>

datatype error = ErrorString string | JoinError "error list"

text \<open>The \<open>Error()\<close> method: a joined error prints its parts on lines of their own.\<close>

fun join_lines :: "string list \<Rightarrow> string" where
  "join_lines [] = []"
| "join_lines [m] = m"
| "join_lines (m # ms) = m @ [CHR 0x0A] @ join_lines ms"

fun ErrorMsg :: "error \<Rightarrow> string" where
  "ErrorMsg (ErrorString m) = m"
| "ErrorMsg (JoinError errs) = join_lines (map ErrorMsg errs)"

text \<open>
  \<open>errors.Join(errs...)\<close> of the standard library: nil values are discarded; the result
  is nil when nothing is left, else one error wrapping the others in the order given.
\<close>

fun non_nil :: "error option list \<Rightarrow> error list" where
  "non_nil [] = []"
| "non_nil (None # errs) = non_nil errs"
| "non_nil (Some e # errs) = e # non_nil errs"

definition Join :: "error option list \<Rightarrow> error option" where
  "Join errs = (if non_nil errs = [] then None else Some (JoinError (non_nil errs)))"

text \<open>
  A value passed to \<open>panic\<close> is kept as its \<open>%v\<close> rendering, which is all that the
  handlers of this program read of it. Both runners turn a recovered value \<open>r\<close> into
  \<open>fmt.Errorf("scope recovered: %v", r)\<close>.
\<close>

definition recovered :: "string \<Rightarrow> error" where
  "recovered r = ErrorString (''scope recovered: '' @ r)"

text \<open>Decimal rendering of an index, as the runtime prints it in a bounds failure.\<close>

definition digit :: "nat \<Rightarrow> char" where
  "digit d = ''0123456789'' ! d"

fun show_nat :: "nat \<Rightarrow> string" where
  "show_nat n = (if n < 10 then [digit n] else show_nat (n div 10) @ [digit (n mod 10)])"

declare show_nat.simps [simp del]

text \<open>
  The two run-time failures of a slice expression: \<open>s[:i]\<close> with \<open>i\<close> beyond the capacity,
  and \<open>s[lo:]\<close> with \<open>lo\<close> beyond the length.
\<close>

definition slice_cap_panic :: "nat \<Rightarrow> nat \<Rightarrow> string" where
  "slice_cap_panic i c =
     ''runtime error: slice bounds out of range [:'' @ show_nat i @ ''] with capacity '' @ show_nat c"

definition slice_low_panic :: "nat \<Rightarrow> nat \<Rightarrow> string" where
  "slice_low_panic lo n =
     ''runtime error: slice bounds out of range ['' @ show_nat lo @ '':'' @ show_nat n @ '']''"

text \<open>
  A cancellation scope is the caller's own scope or one derived from a parent by
  \<open>context.WithCancel\<close>, \<open>context.WithTimeout\<close> (with a duration) or
  \<open>context.WithDeadline\<close> (with an instant). What a work item reads from the scope at
  run time is part of the work item, a function of the scope and the state.
\<close>

datatype ctx = Background | WithCancel ctx | WithTimeout ctx int | WithDeadline ctx int

text \<open>
  One call of a work item either returns (with a nil or non-nil error) or panics (with
  the value rendered); in both cases it may have changed the caller's state before. A nil
  function value in the list is the work item that panics with the nil-dereference
  message of the runtime. A work item that never comes back is not among the items
  considered here.
\<close>

datatype 's outcome = Return 's "error option" | Panic 's string

type_synonym 's Work = "ctx \<Rightarrow> 's \<Rightarrow> 's outcome"

text \<open>
  The error callback and the cleanup hook are the caller's. A call of one of them returns,
  leaving a state; or it panics with a value; or it ends the process itself (\<open>os.Exit\<close>,
  \<open>log.Fatal\<close>). Both may touch the caller's state (the callback as a closure). The
  callback receives the error it is handed, which the type allows to be nil. A nil callback
  is the one that panics with the nil-dereference message of the runtime, whatever it is
  handed.
\<close>

datatype 's called = Returned 's | Panicked string | Exited

type_synonym 's Checker = "error option \<Rightarrow> 's \<Rightarrow> 's called"

type_synonym 's CleanUp = "ctx \<Rightarrow> 's \<Rightarrow> 's called"

text \<open>
  How a call of an orchestrator ends: it returns, leaving a state; or a panic with the
  value \<open>r\<close> leaves it, unwinding its caller; or the process ends in a callback; or the
  process is ended under it by a task of the batch whose panic \<open>r\<close> nothing recovered.
  \<open>ended\<close> is the way the orchestrator ends when a callback called as a plain statement
  ends as given.
\<close>

datatype 's finish = Returns 's | Unwinds string | Exits | Killed string

definition ended :: "'s called \<Rightarrow> 's finish" where
  "ended c = (case c of Returned state \<Rightarrow> Returns state | Panicked r \<Rightarrow> Unwinds r | Exited \<Rightarrow> Exits)"

text \<open>
  What a caller can observe of one call, in order: a work item at a list position was
  invoked, the error callback was invoked with a value, the cleanup hook was invoked,
  the derived scope was released by the deferred \<open>cancel()\<close>.
\<close>

datatype event = Invoked nat | Checked "error option" | CleanedUp | Cancelled

section \<open>The sequential runner\<close>

text \<open>
  The loop of \<open>sequence\<close>, from list position \<open>i\<close> on. Its result is the state, the
  events so far, and how the loop ended: \<open>Inl r\<close> is a panic in flight with value \<open>r\<close>,
  \<open>Inr err\<close> the value of the \<open>return\<close> statement reached.
\<close>

fun sequence_loop :: "ctx \<Rightarrow> nat \<Rightarrow> 's Work list \<Rightarrow> 's \<Rightarrow> 's \<times> event list \<times> (string + error option)" where
  "sequence_loop ctx i [] state = (state, [], Inr None)"
| "sequence_loop ctx i (w # f) state =
     (case w ctx state of
        Panic state' r \<Rightarrow> (state', [Invoked i], Inl r)
      | Return state' (Some err) \<Rightarrow> (state', [Invoked i], Inr (Some err))
      | Return state' None \<Rightarrow>
          (case sequence_loop ctx (Suc i) f state' of
             (state'', log, res) \<Rightarrow> (state'', Invoked i # log, res)))"

text \<open>\<open>sequence\<close>: the loop under the deferred handler, which turns a panic into the result.\<close>

definition sequence :: "ctx \<Rightarrow> 's \<Rightarrow> 's Work list \<Rightarrow> 's \<times> event list \<times> error option" where
  "sequence ctx state f =
     (case sequence_loop ctx 0 f state of
        (state', log, Inl r) \<Rightarrow> (state', log, Some (recovered r))
      | (state', log, Inr err) \<Rightarrow> (state', log, err))"

section \<open>The parallel runner\<close>

text \<open>
  The assignment \<open>errs[i] = err\<close> of a task. The task reads the variable \<open>errs\<close> of
  \<open>parallel\<close> when it stores, and the runtime checks the index against the length the
  slice has then.
\<close>

definition index_panic :: "nat \<Rightarrow> nat \<Rightarrow> string" where
  "index_panic i n =
     ''runtime error: index out of range ['' @ show_nat i @ ''] with length '' @ show_nat n"

definition store :: "nat \<Rightarrow> error \<Rightarrow> error option list \<Rightarrow> string + error option list" where
  "store i err errs =
     (if i < length errs then Inr (errs[i := Some err]) else Inl (index_panic i (length errs)))"

text \<open>
  The body of one launched task, for the item at position \<open>i\<close>: a non-nil error is stored
  in slot \<open>i\<close>; success stores nothing; a panic of the item, or of the store, is recovered
  by the handler the task deferred, which stores the recovered value in slot \<open>i\<close>. A
  panic of the handler's own store is recovered by nobody: \<open>Inl r\<close> is the task ending in
  the panic \<open>r\<close>, which ends the process.
\<close>

definition goroutine :: "ctx \<Rightarrow> nat \<Rightarrow> 's Work \<Rightarrow> 's \<Rightarrow> error option list \<Rightarrow> string + 's \<times> error option list" where
  "goroutine ctx i w state errs =
     (case w ctx state of
        Return state' None \<Rightarrow> Inr (state', errs)
      | Return state' (Some err) \<Rightarrow>
          (case store i err errs of
             Inr errs' \<Rightarrow> Inr (state', errs')
           | Inl r \<Rightarrow>
               (case store i (recovered r) errs of
                  Inr errs' \<Rightarrow> Inr (state', errs')
                | Inl r' \<Rightarrow> Inl r'))
      | Panic state' r \<Rightarrow>
          (case store i (recovered r) errs of
             Inr errs' \<Rightarrow> Inr (state', errs')
           | Inl r' \<Rightarrow> Inl r'))"

text \<open>
  \<open>parallel\<close> launches its tasks with \<open>go\<close> and goes on to read the slots; nothing in the
  function waits for a task. Which tasks have ended by then is therefore an input of the
  model: \<open>sched\<close> lists the positions of the tasks that ran to their end before the slots
  are read, in the order they ran (a schedule of a real execution names each position at
  most once; a position that was never launched is skipped). The tasks are taken to run one
  after another on the shared state, and the slots not to change while \<open>parallel\<close> reads
  and compacts them.
\<close>

fun run_tasks :: "ctx \<Rightarrow> 's Work list \<Rightarrow> nat list \<Rightarrow> 's \<Rightarrow> error option list \<Rightarrow> string + 's \<times> event list \<times> error option list" where
  "run_tasks ctx f [] state errs = Inr (state, [], errs)"
| "run_tasks ctx f (i # sched) state errs =
     (if i < length f then
        (case goroutine ctx i (f ! i) state errs of
           Inl r \<Rightarrow> Inl r
         | Inr (state', errs') \<Rightarrow>
             (case run_tasks ctx f sched state' errs' of
                Inl r \<Rightarrow> Inl r
              | Inr (state'', log, errs'') \<Rightarrow> Inr (state'', Invoked i # log, errs'')))
      else run_tasks ctx f sched state errs)"

text \<open>The loop that appends to \<open>nilIdx\<close> the position of every nil slot, from position \<open>i\<close> on.\<close>

fun scan_nil :: "nat \<Rightarrow> error option list \<Rightarrow> nat list \<Rightarrow> nat list" where
  "scan_nil i [] nilIdx = nilIdx"
| "scan_nil i (err # errs) nilIdx =
     scan_nil (Suc i) errs (if err = None then nilIdx @ [i] else nilIdx)"

text \<open>
  \<open>append(errs[:i], errs[i+1:]...)\<close> on a slice of capacity \<open>c\<close>: both slice expressions
  are checked by the runtime, the first against the capacity and the second against the
  length; the copy happens inside the same array, so the capacity stays.
\<close>

definition delete_at :: "nat \<Rightarrow> nat \<Rightarrow> 'a list \<Rightarrow> string + 'a list" where
  "delete_at c i errs =
     (if c < i then Inl (slice_cap_panic i c)
      else if length errs < i + 1 then Inl (slice_low_panic (i + 1) (length errs))
      else Inr (take i errs @ drop (i + 1) errs))"

text \<open>The compaction loop over \<open>nilIdx\<close>: the value of \<open>errs\<close> when the loop ends, and the
  panic that ended it, if one did.\<close>

fun compact :: "nat \<Rightarrow> nat list \<Rightarrow> 'a list \<Rightarrow> 'a list \<times> string option" where
  "compact c [] errs = (errs, None)"
| "compact c (i # nilIdx) errs =
     (case delete_at c i errs of
        Inl r \<Rightarrow> (errs, Some r)
      | Inr errs' \<Rightarrow> compact c nilIdx errs')"

text \<open>
  \<open>parallel\<close>: the slots start nil, the tasks of the schedule run, then the slots are
  scanned into \<open>nilIdx\<close> (made by \<open>make([]int, 4)\<close>, four zeros), \<open>nilIdx\<close> is
  reversed, \<open>success\<close> is set to its length, and the compaction loop runs. A panic of
  the loop is recovered by the deferred handler, which sets \<open>err\<close> only: \<open>success\<close>
  keeps the value assigned before. \<open>Inl r\<close> is the process ended by a task. The count
  \<open>success\<close>, an \<open>int\<close> of the program, is a length and is kept as a natural number.
\<close>

definition parallel :: "nat list \<Rightarrow> ctx \<Rightarrow> 's \<Rightarrow> 's Work list \<Rightarrow> string + 's \<times> event list \<times> nat \<times> error option" where
  "parallel sched ctx state f =
     (case run_tasks ctx f sched state (replicate (length f) None) of
        Inl r \<Rightarrow> Inl r
      | Inr (state', log, errs) \<Rightarrow>
          (let nilIdx = rev (scan_nil 0 errs (replicate 4 0));
               success = length nilIdx
           in case compact (length f) nilIdx errs of
                (errs', Some r) \<Rightarrow> Inr (state', log, success, Some (recovered r))
              | (errs', None) \<Rightarrow> Inr (state', log, success, Join errs')))"

text \<open>
  A task that is launched and not in the schedule is still running when \<open>parallel\<close>
  returns. When it ends, the variable \<open>errs\<close> it stores through holds what the compaction
  loop left there: \<open>errs_left\<close>. \<open>late_task\<close> is such a task, for the item at position \<open>i\<close>,
  ending on the state \<open>now\<close>.
\<close>

definition errs_left :: "nat list \<Rightarrow> ctx \<Rightarrow> 's \<Rightarrow> 's Work list \<Rightarrow> error option list" where
  "errs_left sched ctx state f =
     (case run_tasks ctx f sched state (replicate (length f) None) of
        Inl r \<Rightarrow> []
      | Inr (state', log, errs) \<Rightarrow>
          fst (compact (length f) (rev (scan_nil 0 errs (replicate 4 0))) errs))"

definition late_task :: "nat list \<Rightarrow> ctx \<Rightarrow> 's \<Rightarrow> 's Work list \<Rightarrow> nat \<Rightarrow> 's \<Rightarrow> string + 's \<times> error option list" where
  "late_task sched ctx state f i now = goroutine ctx i (f ! i) now (errs_left sched ctx state f)"

section \<open>The orchestrators\<close>

text \<open>
  A call in progress is how it stands (\<open>Returns state\<close> while control goes on with the
  state) and its log so far. The three steps the orchestrators share are the statement
  \<open>errChecker(err)\<close>, the guarded statement \<open>cleanUp(ctx, state)\<close>, neither of them deferred
  and so reached only while control goes on, and the deferred \<open>cancel()\<close>, which also runs
  when a panic unwinds the orchestrator, but not when the process ends.
\<close>

definition check :: "'s Checker \<Rightarrow> error option \<Rightarrow> 's finish \<times> event list \<Rightarrow> 's finish \<times> event list" where
  "check errChecker err run =
     (case run of
        (Returns state, log) \<Rightarrow> (ended (errChecker err state), log @ [Checked err])
      | (Unwinds r, log) \<Rightarrow> (Unwinds r, log)
      | (Exits, log) \<Rightarrow> (Exits, log)
      | (Killed r, log) \<Rightarrow> (Killed r, log))"

definition clean :: "'s CleanUp option \<Rightarrow> ctx \<Rightarrow> 's finish \<times> event list \<Rightarrow> 's finish \<times> event list" where
  "clean cleanUp ctx run =
     (case run of
        (Returns state, log) \<Rightarrow>
          (case cleanUp of
             None \<Rightarrow> (Returns state, log)
           | Some c \<Rightarrow> (ended (c ctx state), log @ [CleanedUp]))
      | (Unwinds r, log) \<Rightarrow> (Unwinds r, log)
      | (Exits, log) \<Rightarrow> (Exits, log)
      | (Killed r, log) \<Rightarrow> (Killed r, log))"

definition cancel :: "'s finish \<times> event list \<Rightarrow> 's finish \<times> event list" where
  "cancel run =
     (case run of
        (Returns state, log) \<Rightarrow> (Returns state, log @ [Cancelled])
      | (Unwinds r, log) \<Rightarrow> (Unwinds r, log @ [Cancelled])
      | (Exits, log) \<Rightarrow> (Exits, log)
      | (Killed r, log) \<Rightarrow> (Killed r, log))"

text \<open>
  Nothing joins the tasks of a parallel batch, so those that are not in the schedule go on
  running while the orchestrator goes on after \<open>parallel\<close>. \<open>late\<close> lists the positions of
  the tasks that end between the return of \<open>parallel\<close> and the callbacks, in the order they
  end; they store through \<open>errs\<close> as the compaction loop left it. When such a task ends in
  a panic the process ends, and the log keeps what the calling thread had done. Tasks
  that end later still are no part of the call.
\<close>

definition still_running :: "ctx \<Rightarrow> 's Work list \<Rightarrow> nat list \<Rightarrow> error option list \<Rightarrow> 's \<Rightarrow> event list \<Rightarrow> 's finish \<times> event list" where
  "still_running ctx f late errs state log =
     (case run_tasks ctx f late state errs of
        Inl r \<Rightarrow> (Killed r, log)
      | Inr (state', log', errs') \<Rightarrow> (Returns state', log @ log'))"

text \<open>
  Each orchestrator runs its runner, hands the result to the error callback when its
  condition holds (\<open>err != nil\<close> for \<open>Sequence\<close> and \<open>All\<close>, \<open>success == 0\<close> for
  \<open>Any\<close>), and then calls the cleanup hook unless it is nil. The variants derive a
  scope first, use it for the runner and the hook, and release it when they are left. The
  result is how the call ends and its log. The function \<open>All\<close> of the source is
  \<open>All_scope\<close> here, since \<open>All\<close> is the name of a constant of HOL.
\<close>

definition Sequence :: "ctx \<Rightarrow> 's \<Rightarrow> 's Checker \<Rightarrow> 's CleanUp option \<Rightarrow> 's Work list \<Rightarrow> 's finish \<times> event list" where
  "Sequence ctx state errChecker cleanUp f =
     (case sequence ctx state f of
        (state', log, err) \<Rightarrow>
          clean cleanUp ctx
            (if err \<noteq> None then check errChecker err (Returns state', log)
             else (Returns state', log)))"

definition SequenceWithCancel :: "ctx \<Rightarrow> 's \<Rightarrow> 's Checker \<Rightarrow> 's CleanUp option \<Rightarrow> 's Work list \<Rightarrow> 's finish \<times> event list" where
  "SequenceWithCancel ctx state errChecker cleanUp f =
     (let ctx = WithCancel ctx in
      cancel
        (case sequence ctx state f of
             (state', log, err) \<Rightarrow>
               clean cleanUp ctx
                 (if err \<noteq> None then check errChecker err (Returns state', log)
                  else (Returns state', log))))"

definition SequenceWithTimeout :: "ctx \<Rightarrow> 's \<Rightarrow> int \<Rightarrow> 's Checker \<Rightarrow> 's CleanUp option \<Rightarrow> 's Work list \<Rightarrow> 's finish \<times> event list" where
  "SequenceWithTimeout ctx state timeout errChecker cleanUp f =
     (let ctx = WithTimeout ctx timeout in
      cancel
        (case sequence ctx state f of
             (state', log, err) \<Rightarrow>
               clean cleanUp ctx
                 (if err \<noteq> None then check errChecker err (Returns state', log)
                  else (Returns state', log))))"

definition SequenceWithDeadline :: "ctx \<Rightarrow> 's \<Rightarrow> int \<Rightarrow> 's Checker \<Rightarrow> 's CleanUp option \<Rightarrow> 's Work list \<Rightarrow> 's finish \<times> event list" where
  "SequenceWithDeadline ctx state deadline errChecker cleanUp f =
     (let ctx = WithDeadline ctx deadline in
      cancel
        (case sequence ctx state f of
             (state', log, err) \<Rightarrow>
               clean cleanUp ctx
                 (if err \<noteq> None then check errChecker err (Returns state', log)
                  else (Returns state', log))))"

definition All_scope :: "nat list \<Rightarrow> nat list \<Rightarrow> ctx \<Rightarrow> 's \<Rightarrow> 's Checker \<Rightarrow> 's CleanUp option \<Rightarrow> 's Work list \<Rightarrow> 's finish \<times> event list" where
  "All_scope sched late ctx state errChecker cleanUp f =
     (case parallel sched ctx state f of
        Inl r \<Rightarrow> (Killed r, [])
      | Inr (state', log, _, err) \<Rightarrow>
          clean cleanUp ctx
            (if err \<noteq> None
             then check errChecker err
                    (still_running ctx f late (errs_left sched ctx state f) state' log)
             else still_running ctx f late (errs_left sched ctx state f) state' log))"

definition AllWithCancel :: "nat list \<Rightarrow> nat list \<Rightarrow> ctx \<Rightarrow> 's \<Rightarrow> 's Checker \<Rightarrow> 's CleanUp option \<Rightarrow> 's Work list \<Rightarrow> 's finish \<times> event list" where
  "AllWithCancel sched late ctx state errChecker cleanUp f =
     (let ctx = WithCancel ctx in
      cancel
        (case parallel sched ctx state f of
             Inl r \<Rightarrow> (Killed r, [])
           | Inr (state', log, _, err) \<Rightarrow>
               clean cleanUp ctx
                 (if err \<noteq> None
                  then check errChecker err
                         (still_running ctx f late (errs_left sched ctx state f) state' log)
                  else still_running ctx f late (errs_left sched ctx state f) state' log)))"

definition AllWithTimeout :: "nat list \<Rightarrow> nat list \<Rightarrow> ctx \<Rightarrow> 's \<Rightarrow> int \<Rightarrow> 's Checker \<Rightarrow> 's CleanUp option \<Rightarrow> 's Work list \<Rightarrow> 's finish \<times> event list" where
  "AllWithTimeout sched late ctx state timeout errChecker cleanUp f =
     (let ctx = WithTimeout ctx timeout in
      cancel
        (case parallel sched ctx state f of
             Inl r \<Rightarrow> (Killed r, [])
           | Inr (state', log, _, err) \<Rightarrow>
               clean cleanUp ctx
                 (if err \<noteq> None
                  then check errChecker err
                         (still_running ctx f late (errs_left sched ctx state f) state' log)
                  else still_running ctx f late (errs_left sched ctx state f) state' log)))"

definition AllWithDeadline :: "nat list \<Rightarrow> nat list \<Rightarrow> ctx \<Rightarrow> 's \<Rightarrow> int \<Rightarrow> 's Checker \<Rightarrow> 's CleanUp option \<Rightarrow> 's Work list \<Rightarrow> 's finish \<times> event list" where
  "AllWithDeadline sched late ctx state deadline errChecker cleanUp f =
     (let ctx = WithDeadline ctx deadline in
      cancel
        (case parallel sched ctx state f of
             Inl r \<Rightarrow> (Killed r, [])
           | Inr (state', log, _, err) \<Rightarrow>
               clean cleanUp ctx
                 (if err \<noteq> None
                  then check errChecker err
                         (still_running ctx f late (errs_left sched ctx state f) state' log)
                  else still_running ctx f late (errs_left sched ctx state f) state' log)))"

definition Any :: "nat list \<Rightarrow> nat list \<Rightarrow> ctx \<Rightarrow> 's \<Rightarrow> 's Checker \<Rightarrow> 's CleanUp option \<Rightarrow> 's Work list \<Rightarrow> 's finish \<times> event list" where
  "Any sched late ctx state errChecker cleanUp f =
     (case parallel sched ctx state f of
        Inl r \<Rightarrow> (Killed r, [])
      | Inr (state', log, success, err) \<Rightarrow>
          clean cleanUp ctx
            (if success = 0
             then check errChecker err
                    (still_running ctx f late (errs_left sched ctx state f) state' log)
             else still_running ctx f late (errs_left sched ctx state f) state' log))"

definition AnyWithCancel :: "nat list \<Rightarrow> nat list \<Rightarrow> ctx \<Rightarrow> 's \<Rightarrow> 's Checker \<Rightarrow> 's CleanUp option \<Rightarrow> 's Work list \<Rightarrow> 's finish \<times> event list" where
  "AnyWithCancel sched late ctx state errChecker cleanUp f =
     (let ctx = WithCancel ctx in
      cancel
        (case parallel sched ctx state f of
             Inl r \<Rightarrow> (Killed r, [])
           | Inr (state', log, success, err) \<Rightarrow>
               clean cleanUp ctx
                 (if success = 0
                  then check errChecker err
                         (still_running ctx f late (errs_left sched ctx state f) state' log)
                  else still_running ctx f late (errs_left sched ctx state f) state' log)))"

definition AnyWithTimeout :: "nat list \<Rightarrow> nat list \<Rightarrow> ctx \<Rightarrow> 's \<Rightarrow> int \<Rightarrow> 's Checker \<Rightarrow> 's CleanUp option \<Rightarrow> 's Work list \<Rightarrow> 's finish \<times> event list" where
  "AnyWithTimeout sched late ctx state timeout errChecker cleanUp f =
     (let ctx = WithTimeout ctx timeout in
      cancel
        (case parallel sched ctx state f of
             Inl r \<Rightarrow> (Killed r, [])
           | Inr (state', log, success, err) \<Rightarrow>
               clean cleanUp ctx
                 (if success = 0
                  then check errChecker err
                         (still_running ctx f late (errs_left sched ctx state f) state' log)
                  else still_running ctx f late (errs_left sched ctx state f) state' log)))"

definition AnyWithDeadline :: "nat list \<Rightarrow> nat list \<Rightarrow> ctx \<Rightarrow> 's \<Rightarrow> int \<Rightarrow> 's Checker \<Rightarrow> 's CleanUp option \<Rightarrow> 's Work list \<Rightarrow> 's finish \<times> event list" where
  "AnyWithDeadline sched late ctx state deadline errChecker cleanUp f =
     (let ctx = WithDeadline ctx deadline in
      cancel
        (case parallel sched ctx state f of
             Inl r \<Rightarrow> (Killed r, [])
           | Inr (state', log, success, err) \<Rightarrow>
               clean cleanUp ctx
                 (if success = 0
                  then check errChecker err
                         (still_running ctx f late (errs_left sched ctx state f) state' log)
                  else still_running ctx f late (errs_left sched ctx state f) state' log)))"

section \<open>Reading a result\<close>

text \<open>The slots as \<open>parallel\<close> finds them when it scans them, and the parts of what a call
  returns (for \<open>parallel\<close>, a call that does not return has no success and no error).\<close>

definition slots :: "nat list \<Rightarrow> ctx \<Rightarrow> 's \<Rightarrow> 's Work list \<Rightarrow> error option list" where
  "slots sched ctx state f =
     (case run_tasks ctx f sched state (replicate (length f) None) of
        Inl r \<Rightarrow> []
      | Inr (state', log, errs) \<Rightarrow> errs)"

definition returns :: "string + 'a \<Rightarrow> bool" where
  "returns r = (case r of Inl p \<Rightarrow> False | Inr v \<Rightarrow> True)"

definition success_of :: "string + 's \<times> event list \<times> nat \<times> error option \<Rightarrow> nat" where
  "success_of r = (case r of Inl p \<Rightarrow> 0 | Inr (state, log, success, err) \<Rightarrow> success)"

definition err_of :: "string + 's \<times> event list \<times> nat \<times> error option \<Rightarrow> error option" where
  "err_of r = (case r of Inl p \<Rightarrow> None | Inr (state, log, success, err) \<Rightarrow> err)"

definition log_of :: "'s finish \<times> event list \<Rightarrow> event list" where
  "log_of run = snd run"

definition killed :: "'s finish \<Rightarrow> bool" where
  "killed fin = (case fin of Killed r \<Rightarrow> True | Returns state \<Rightarrow> False | Unwinds r \<Rightarrow> False | Exits \<Rightarrow> False)"

text \<open>What is counted in a log: calls of the cleanup hook, calls of the error callback, and
  the part of the log from the first call of the cleanup hook on.\<close>

fun is_check :: "event \<Rightarrow> bool" where
  "is_check (Checked err) = True"
| "is_check ev = False"


definition check_calls :: "event list \<Rightarrow> nat" where
  "check_calls log = length (filter is_check log)"



text \<open>
  The state a runner leaves to the callbacks: that of \<open>sequence\<close>, and that of a parallel
  batch once the tasks of \<open>late\<close> have ended, if the process still lives.
\<close>

definition left_by_sequence :: "ctx \<Rightarrow> 's \<Rightarrow> 's Work list \<Rightarrow> 's option" where
  "left_by_sequence ctx state f = Some (fst (sequence ctx state f))"

definition left_by_batch :: "nat list \<Rightarrow> nat list \<Rightarrow> ctx \<Rightarrow> 's \<Rightarrow> 's Work list \<Rightarrow> 's option" where
  "left_by_batch sched late ctx state f =
     (case parallel sched ctx state f of
        Inl r \<Rightarrow> None
      | Inr (state', log, success, err) \<Rightarrow>
          (case still_running ctx f late (errs_left sched ctx state f) state' log of
             (Returns state'', log') \<Rightarrow> Some state''
           | (Unwinds r, log') \<Rightarrow> None
           | (Exits, log') \<Rightarrow> None
           | (Killed r, log') \<Rightarrow> None))"

text \<open>
  The calls of the twelve orchestrators on the same arguments: for each, the scope it
  hands to the runner and the hook, the state its runner leaves to the callbacks, how it
  ends, and its log.
\<close>

definition orchestrator_runs ::
  "nat list \<Rightarrow> nat list \<Rightarrow> ctx \<Rightarrow> 's \<Rightarrow> int \<Rightarrow> int \<Rightarrow> 's Checker \<Rightarrow> 's CleanUp option \<Rightarrow> 's Work list
     \<Rightarrow> (ctx \<times> 's option \<times> 's finish \<times> event list) list" where
  "orchestrator_runs sched late ctx state timeout deadline errChecker cleanUp f =
     [(ctx, left_by_sequence ctx state f,
         Sequence ctx state errChecker cleanUp f),
      (WithCancel ctx, left_by_sequence (WithCancel ctx) state f,
         SequenceWithCancel ctx state errChecker cleanUp f),
      (WithTimeout ctx timeout, left_by_sequence (WithTimeout ctx timeout) state f,
         SequenceWithTimeout ctx state timeout errChecker cleanUp f),
      (WithDeadline ctx deadline, left_by_sequence (WithDeadline ctx deadline) state f,
         SequenceWithDeadline ctx state deadline errChecker cleanUp f),
      (ctx, left_by_batch sched late ctx state f,
         All_scope sched late ctx state errChecker cleanUp f),
      (WithCancel ctx, left_by_batch sched late (WithCancel ctx) state f,
         AllWithCancel sched late ctx state errChecker cleanUp f),
      (WithTimeout ctx timeout, left_by_batch sched late (WithTimeout ctx timeout) state f,
         AllWithTimeout sched late ctx state timeout errChecker cleanUp f),
      (WithDeadline ctx deadline, left_by_batch sched late (WithDeadline ctx deadline) state f,
         AllWithDeadline sched late ctx state deadline errChecker cleanUp f),
      (ctx, left_by_batch sched late ctx state f,
         Any sched late ctx state errChecker cleanUp f),
      (WithCancel ctx, left_by_batch sched late (WithCancel ctx) state f,
         AnyWithCancel sched late ctx state errChecker cleanUp f),
      (WithTimeout ctx timeout, left_by_batch sched late (WithTimeout ctx timeout) state f,
         AnyWithTimeout sched late ctx state timeout errChecker cleanUp f),
      (WithDeadline ctx deadline, left_by_batch sched late (WithDeadline ctx deadline) state f,
         AnyWithDeadline sched late ctx state deadline errChecker cleanUp f)]"



text \<open>
  The contract of the sequential runner, said without the runner: \<open>all_succeed\<close> is the
  state that the items leave when they are called in list order, each on the state the one
  before left, and every one of them returns nil; it is nothing when one of them returns
  an error or panics.
\<close>

fun all_succeed :: "ctx \<Rightarrow> 's Work list \<Rightarrow> 's \<Rightarrow> 's option" where
  "all_succeed ctx [] state = Some state"
| "all_succeed ctx (w # f) state =
     (case w ctx state of
        Return state' None \<Rightarrow> all_succeed ctx f state'
      | Return state' (Some err) \<Rightarrow> None
      | Panic state' r \<Rightarrow> None)"

section \<open>The example program\<close>

text \<open>
  The state and the work items of \<open>prac/riddle\<close>: a 64-bit counter (an \<open>atomic.Int64\<close>)
  and items that add to it or reset it; none of them fails. The two cleanup hooks print
  the counter, and \<open>ResetAndPrint\<close> resets it. The callback of the example logs its
  argument and leaves the state alone.
\<close>

record State =
  number :: "64 word"

definition NewState :: State where
  "NewState = \<lparr>number = 0\<rparr>"

definition AddOne :: "State Work" where
  "AddOne ctx state = Return (state\<lparr>number := number state + 1\<rparr>) None"

definition AddTwo :: "State Work" where
  "AddTwo ctx state = Return (state\<lparr>number := number state + 2\<rparr>) None"

definition SubOne :: "State Work" where
  "SubOne ctx state = Return (state\<lparr>number := number state + (- 1)\<rparr>) None"

definition SetZero :: "State Work" where
  "SetZero ctx state = Return (state\<lparr>number := 0\<rparr>) None"

definition ResetAndPrint :: "State CleanUp" where
  "ResetAndPrint ctx state = Returned (state\<lparr>number := 0\<rparr>)"

definition JustPrint :: "State CleanUp" where
  "JustPrint ctx state = Returned state"

definition logChecker :: "State Checker" where
  "logChecker err state = Returned state"



text \<open>Two more work items for the examples below: one returns \<open>errors.New(m)\<close>, the other
  calls \<open>panic(r)\<close>; neither touches the counter.\<close>

definition Failing :: "string \<Rightarrow> State Work" where
  "Failing m ctx state = Return state (Some (ErrorString m))"

definition Faulting :: "string \<Rightarrow> State Work" where
  "Faulting r ctx state = Panic state r"

section \<open>The compaction loop\<close>

lemma non_nil_append: "non_nil (xs @ ys) = non_nil xs @ non_nil ys"
  by (induction xs rule: non_nil.induct) simp_all

lemma scan_nil_acc: "scan_nil i errs (acc @ nilIdx) = acc @ scan_nil i errs nilIdx"
  by (induction errs arbitrary: i nilIdx) simp_all

lemma scan_nil_snoc:
  "scan_nil i (errs @ [err]) nilIdx =
     scan_nil i errs nilIdx @ (if err = None then [i + length errs] else [])"
  by (induction errs arbitrary: i nilIdx) (simp_all add: scan_nil_acc [symmetric])

lemma scan_nil_start: "scan_nil 0 errs nilIdx = nilIdx @ scan_nil 0 errs []"
  using scan_nil_acc [of 0 errs nilIdx "[]"] by simp

lemma length_scan_nil:
  "length (scan_nil i errs nilIdx) = length nilIdx + length (filter (\<lambda>e. e = None) errs)"
  by (induction errs arbitrary: i nilIdx) simp_all

lemma length_non_nil: "length (non_nil errs) + length (filter (\<lambda>e. e = None) errs) = length errs"
  by (induction errs rule: non_nil.induct) simp_all

lemma compact_append:
  "compact c (is @ js) errs =
     (case compact c is errs of
        (errs', Some r) \<Rightarrow> (errs', Some r)
      | (errs', None) \<Rightarrow> compact c js errs')"
  by (induction "is" arbitrary: errs) (simp_all split: sum.splits)

lemma delete_at_last:
  "length xs \<le> c \<Longrightarrow> delete_at c (length xs) (xs @ x # ys) = Inr (xs @ ys)"
  by (simp add: delete_at_def)

lemma compact_nils:
  "length xs \<le> c \<Longrightarrow>
   compact c (rev (scan_nil 0 xs [])) (xs @ ys) = (map Some (non_nil xs) @ ys, None)"
proof (induction xs arbitrary: ys rule: rev_induct)
  case Nil
  show ?case by simp
next
  case (snoc x xs)
  from snoc.prems have le: "length xs \<le> c" by simp
  show ?case
  proof (cases x)
    case None
    have "compact c (rev (scan_nil 0 (xs @ [x]) [])) ((xs @ [x]) @ ys)
            = compact c (length xs # rev (scan_nil 0 xs [])) (xs @ x # ys)"
      using None by (simp add: scan_nil_snoc)
    also have "\<dots> = compact c (rev (scan_nil 0 xs [])) (xs @ ys)"
      using le by (simp add: delete_at_last)
    also have "\<dots> = (map Some (non_nil xs) @ ys, None)"
      using snoc.IH [OF le] .
    finally show ?thesis using None by (simp add: non_nil_append)
  next
    case (Some e)
    have "compact c (rev (scan_nil 0 (xs @ [x]) [])) ((xs @ [x]) @ ys)
            = compact c (rev (scan_nil 0 xs [])) (xs @ x # ys)"
      using Some by (simp add: scan_nil_snoc)
    also have "\<dots> = (map Some (non_nil xs) @ x # ys, None)"
      using snoc.IH [OF le] .
    finally show ?thesis using Some by (simp add: non_nil_append)
  qed
qed

lemma compact_zeros:
  "compact c (replicate n 0) errs =
     (if n \<le> length errs then (drop n errs, None) else ([], Some (slice_low_panic 1 0)))"
proof (induction n arbitrary: errs)
  case 0
  show ?case by simp
next
  case (Suc n)
  show ?case
  proof (cases errs)
    case Nil
    then show ?thesis by (simp add: delete_at_def)
  next
    case (Cons e es)
    then show ?thesis using Suc.IH [of es] by (simp add: delete_at_def)
  qed
qed

lemma compact_parallel:
  "compact (length errs) (rev (scan_nil 0 errs (replicate 4 0))) errs =
     (if 4 \<le> length (non_nil errs) then (map Some (drop 4 (non_nil errs)), None)
      else ([], Some (slice_low_panic 1 0)))"
proof -
  have "compact (length errs) (rev (scan_nil 0 errs [])) (errs @ []) = (map Some (non_nil errs) @ [], None)"
    by (rule compact_nils) simp
  then have nils: "compact (length errs) (rev (scan_nil 0 errs [])) errs = (map Some (non_nil errs), None)"
    by simp
  have "rev (scan_nil 0 errs (replicate 4 0)) = rev (scan_nil 0 errs []) @ replicate 4 0"
    by (subst scan_nil_start) simp
  then show ?thesis
    by (simp only: compact_append nils prod.case option.case compact_zeros length_map drop_map)
qed

section \<open>What the parallel runner returns\<close>

lemma store_in_range: "i < length errs \<Longrightarrow> store i err errs = Inr (errs[i := Some err])"
  by (simp add: store_def)

lemma goroutine_returns:
  "i < length errs \<Longrightarrow>
   \<exists>state' errs'. goroutine ctx i w state errs = Inr (state', errs') \<and> length errs' = length errs"
  by (cases "w ctx state") (auto simp: goroutine_def store_in_range split: option.splits)

lemma run_tasks_returns:
  "length errs = length f \<Longrightarrow>
   \<exists>state' errs'. run_tasks ctx f sched state errs
       = Inr (state', map Invoked (filter (\<lambda>i. i < length f) sched), errs')
     \<and> length errs' = length f"
proof (induction sched arbitrary: state errs)
  case Nil
  then show ?case by simp
next
  case (Cons i sched)
  show ?case
  proof (cases "i < length f")
    case True
    with Cons.prems have "i < length errs" by simp
    from goroutine_returns [OF this, of ctx "f ! i" state] obtain s1 e1 where
      g: "goroutine ctx i (f ! i) state errs = Inr (s1, e1)" and len: "length e1 = length errs"
      by blast
    from len Cons.prems have "length e1 = length f" by simp
    from Cons.IH [OF this, of s1] obtain s2 e2 where
      r: "run_tasks ctx f sched s1 e1 = Inr (s2, map Invoked (filter (\<lambda>i. i < length f) sched), e2)"
      and len2: "length e2 = length f"
      by blast
    from True g r len2 show ?thesis by simp
  next
    case False
    with Cons.IH [OF Cons.prems, of state] show ?thesis by simp
  qed
qed

lemma run_tasks_slots:
  "\<exists>state'. run_tasks ctx f sched state (replicate (length f) None)
     = Inr (state', map Invoked (filter (\<lambda>i. i < length f) sched), slots sched ctx state f)"
proof -
  from run_tasks_returns [of "replicate (length f) None" f ctx sched state]
  obtain s e where "run_tasks ctx f sched state (replicate (length f) None)
       = Inr (s, map Invoked (filter (\<lambda>i. i < length f) sched), e)"
    by auto
  then show ?thesis by (simp add: slots_def)
qed

lemma length_slots: "length (slots sched ctx state f) = length f"
proof -
  from run_tasks_returns [of "replicate (length f) None" f ctx sched state]
  obtain s e where "run_tasks ctx f sched state (replicate (length f) None)
       = Inr (s, map Invoked (filter (\<lambda>i. i < length f) sched), e)" and "length e = length f"
    by auto
  then show ?thesis by (simp add: slots_def)
qed

lemma parallel_result:
  "\<exists>state'. parallel sched ctx state f =
     Inr (state', map Invoked (filter (\<lambda>i. i < length f) sched),
          4 + length (filter (\<lambda>e. e = None) (slots sched ctx state f)),
          (if 4 \<le> length (non_nil (slots sched ctx state f))
           then Join (map Some (drop 4 (non_nil (slots sched ctx state f))))
           else Some (recovered (slice_low_panic 1 0))))"
proof -
  from run_tasks_slots [of ctx f sched state] obtain s where
    run: "run_tasks ctx f sched state (replicate (length f) None)
       = Inr (s, map Invoked (filter (\<lambda>i. i < length f) sched), slots sched ctx state f)"
    by blast
  have cp: "compact (length f) (rev (scan_nil 0 (slots sched ctx state f) (replicate 4 0)))
              (slots sched ctx state f) =
     (if 4 \<le> length (non_nil (slots sched ctx state f))
      then (map Some (drop 4 (non_nil (slots sched ctx state f))), None)
      else ([], Some (slice_low_panic 1 0)))"
    using compact_parallel [of "slots sched ctx state f"] by (simp add: length_slots)
  show ?thesis
    by (simp add: parallel_def run Let_def cp length_scan_nil)
qed

lemma errs_left_eq:
  "errs_left sched ctx state f = map Some (drop 4 (non_nil (slots sched ctx state f)))"
proof -
  from run_tasks_slots [of ctx f sched state] obtain s where
    run: "run_tasks ctx f sched state (replicate (length f) None)
       = Inr (s, map Invoked (filter (\<lambda>i. i < length f) sched), slots sched ctx state f)"
    by blast
  have cp: "compact (length f) (rev (scan_nil 0 (slots sched ctx state f) (replicate 4 0)))
              (slots sched ctx state f) =
     (if 4 \<le> length (non_nil (slots sched ctx state f))
      then (map Some (drop 4 (non_nil (slots sched ctx state f))), None)
      else ([], Some (slice_low_panic 1 0)))"
    using compact_parallel [of "slots sched ctx state f"] by (simp add: length_slots)
  show ?thesis
    by (simp add: errs_left_def run cp)
qed

lemma show_nat_digit: "n < 10 \<Longrightarrow> show_nat n = [digit n]"
  by (simp add: show_nat.simps)

lemma slice_low_panic_1_0:
  "slice_low_panic 1 0 = ''runtime error: slice bounds out of range [1:0]''"
  by (simp add: slice_low_panic_def show_nat_digit digit_def)

lemma index_panic_0_0:
  "index_panic 0 0 = ''runtime error: index out of range [0] with length 0''"
  by (simp add: index_panic_def show_nat_digit digit_def)

section \<open>The logs of the calls over the parallel runner\<close>

lemma filter_is_check_invoked: "filter is_check (map Invoked is) = []"
  by (induction "is") simp_all

lemma check_calls_invoked: "check_calls (map Invoked is) = 0"
  by (simp add: check_calls_def filter_is_check_invoked)


lemma run_tasks_log:
  "run_tasks ctx f sched state errs = Inr (state', log, errs') \<Longrightarrow>
   log = map Invoked (filter (\<lambda>i. i < length f) sched)"
proof (induction sched arbitrary: state errs state' log errs')
  case Nil
  then show ?case by simp
next
  case (Cons i sched)
  show ?case
  proof (cases "i < length f")
    case True
    with Cons.prems obtain s1 e1 where g: "goroutine ctx i (f ! i) state errs = Inr (s1, e1)"
      by (auto split: sum.splits)
    with Cons.prems True obtain s2 l2 e2 where r: "run_tasks ctx f sched s1 e1 = Inr (s2, l2, e2)"
      by (auto split: sum.splits)
    from Cons.prems True g r have "log = Invoked i # l2" by simp
    with Cons.IH [OF r] True show ?thesis by simp
  next
    case False
    with Cons.prems have "run_tasks ctx f sched state errs = Inr (state', log, errs')" by simp
    from Cons.IH [OF this] False show ?thesis by simp
  qed
qed

lemma still_running_log:
  "\<exists>is. snd (still_running ctx f late errs state (map Invoked js)) = map Invoked is"
proof (cases "run_tasks ctx f late state errs")
  case (Inl r)
  then have "snd (still_running ctx f late errs state (map Invoked js)) = map Invoked js"
    by (simp add: still_running_def)
  then show ?thesis by blast
next
  case (Inr v)
  obtain s l e where v: "v = (s, l, e)" by (cases v) auto
  from run_tasks_log [of ctx f late state errs s l e] Inr v
  have "l = map Invoked (filter (\<lambda>i. i < length f) late)" by simp
  with Inr v have "snd (still_running ctx f late errs state (map Invoked js))
      = map Invoked (js @ filter (\<lambda>i. i < length f) late)"
    by (simp add: still_running_def)
  then show ?thesis by blast
qed

lemma still_running_none:
  "still_running ctx f [] errs state log = (Returns state, log)"
  by (simp add: still_running_def)

lemma still_running_cases:
  "(\<exists>r. still_running ctx f late errs state log = (Killed r, log))
   \<or> (\<exists>state' log'. still_running ctx f late errs state log = (Returns state', log @ log'))"
  by (cases "run_tasks ctx f late state errs") (auto simp: still_running_def)

lemma log_of_clean_checks: "check_calls (log_of (clean cleanUp ctx run)) = check_calls (log_of run)"
  by (cases run; cases "fst run"; cases cleanUp)
     (auto simp: clean_def log_of_def check_calls_def)

lemma log_of_cancel_checks: "check_calls (log_of (cancel run)) = check_calls (log_of run)"
  by (cases run; cases "fst run") (auto simp: cancel_def log_of_def check_calls_def)

lemma not_killed_ended: "\<not> killed (ended c)"
  by (cases c) (simp_all add: ended_def killed_def)

lemma killed_clean: "killed (fst (clean cleanUp ctx run)) = killed (fst run)"
  by (cases run; cases "fst run"; cases cleanUp)
     (auto simp: clean_def killed_def not_killed_ended [unfolded killed_def])

lemma killed_cancel: "killed (fst (cancel run)) = killed (fst run)"
  by (cases run; cases "fst run") (auto simp: cancel_def killed_def)

lemma Any_run:
  "\<exists>state' is. parallel sched ctx state f = Inr (state', map Invoked is, 4 + length (filter (\<lambda>e. e = None) (slots sched ctx state f)),
        (if 4 \<le> length (non_nil (slots sched ctx state f))
           then Join (map Some (drop 4 (non_nil (slots sched ctx state f))))
           else Some (recovered (slice_low_panic 1 0))))
     \<and> Any sched late ctx state errChecker cleanUp f
       = clean cleanUp ctx (still_running ctx f late (errs_left sched ctx state f) state' (map Invoked is))"
proof -
  from parallel_result [of sched ctx state f] obtain s where
    p: "parallel sched ctx state f =
     Inr (s, map Invoked (filter (\<lambda>i. i < length f) sched),
          4 + length (filter (\<lambda>e. e = None) (slots sched ctx state f)),
          (if 4 \<le> length (non_nil (slots sched ctx state f))
           then Join (map Some (drop 4 (non_nil (slots sched ctx state f))))
           else Some (recovered (slice_low_panic 1 0))))"
    by blast
  then have "Any sched late ctx state errChecker cleanUp f
       = clean cleanUp ctx (still_running ctx f late (errs_left sched ctx state f) s
            (map Invoked (filter (\<lambda>i. i < length f) sched)))"
    by (simp add: Any_def)
  with p show ?thesis by blast
qed

lemma Any_never_checks:
  "check_calls (log_of (Any sched late ctx state errChecker cleanUp f)) = 0"
proof -
  from Any_run [of sched ctx state f late errChecker cleanUp] obtain s "is" where
    a: "Any sched late ctx state errChecker cleanUp f
       = clean cleanUp ctx (still_running ctx f late (errs_left sched ctx state f) s (map Invoked is))"
    by blast
  from still_running_log [of ctx f late "errs_left sched ctx state f" s "is"] obtain js where
    "snd (still_running ctx f late (errs_left sched ctx state f) s (map Invoked is)) = map Invoked js"
    by blast
  then show ?thesis
    unfolding a log_of_clean_checks by (simp add: log_of_def check_calls_invoked)
qed

lemma Any_not_killed:
  "\<not> killed (fst (Any sched [] ctx state errChecker cleanUp f))"
proof -
  from Any_run [of sched ctx state f "[]" errChecker cleanUp] obtain s "is" where
    a: "Any sched [] ctx state errChecker cleanUp f
       = clean cleanUp ctx (still_running ctx f [] (errs_left sched ctx state f) s (map Invoked is))"
    by blast
  show ?thesis
    unfolding a killed_clean still_running_none by (simp add: killed_def)
qed

lemma AnyWithCancel_eq:
  "AnyWithCancel sched late ctx state errChecker cleanUp f =
     cancel (Any sched late (WithCancel ctx) state errChecker cleanUp f)"
  by (simp add: AnyWithCancel_def Any_def Let_def)

lemma AnyWithTimeout_eq:
  "AnyWithTimeout sched late ctx state timeout errChecker cleanUp f =
     cancel (Any sched late (WithTimeout ctx timeout) state errChecker cleanUp f)"
  by (simp add: AnyWithTimeout_def Any_def Let_def)

lemma AnyWithDeadline_eq:
  "AnyWithDeadline sched late ctx state deadline errChecker cleanUp f =
     cancel (Any sched late (WithDeadline ctx deadline) state errChecker cleanUp f)"
  by (simp add: AnyWithDeadline_def Any_def Let_def)

section \<open>The success count\<close>

text \<open>
  C9: for every call of \<open>parallel\<close>, the success count returned is 4 plus the number of
  slots that are nil when they are scanned. So it is at least 4 and never 0, and the
  condition \<open>success == 0\<close> under which \<open>Any\<close>, \<open>AnyWithCancel\<close>, \<open>AnyWithTimeout\<close> and
  \<open>AnyWithDeadline\<close> call the error callback holds for no input: their logs hold no call
  of the callback, whatever tasks end while they run; and when no task is left running
  the process is not ended under them.
\<close>

theorem success_never_zero:
  "returns (parallel sched ctx state f)
   \<and> success_of (parallel sched ctx state f)
       = 4 + length (filter (\<lambda>e. e = None) (slots sched ctx state f))
   \<and> 4 \<le> success_of (parallel sched ctx state f)
   \<and> success_of (parallel sched ctx state f) \<noteq> 0
   \<and> check_calls (log_of (Any sched late ctx state errChecker cleanUp f)) = 0
   \<and> check_calls (log_of (AnyWithCancel sched late ctx state errChecker cleanUp f)) = 0
   \<and> check_calls (log_of (AnyWithTimeout sched late ctx state timeout errChecker cleanUp f)) = 0
   \<and> check_calls (log_of (AnyWithDeadline sched late ctx state deadline errChecker cleanUp f)) = 0
   \<and> \<not> killed (fst (Any sched [] ctx state errChecker cleanUp f))
   \<and> \<not> killed (fst (AnyWithCancel sched [] ctx state errChecker cleanUp f))
   \<and> \<not> killed (fst (AnyWithTimeout sched [] ctx state timeout errChecker cleanUp f))
   \<and> \<not> killed (fst (AnyWithDeadline sched [] ctx state deadline errChecker cleanUp f))"
proof -
  from parallel_result [of sched ctx state f]
  have p: "returns (parallel sched ctx state f)
    \<and> success_of (parallel sched ctx state f)
        = 4 + length (filter (\<lambda>e. e = None) (slots sched ctx state f))"
    by (auto simp: returns_def success_of_def)
  show ?thesis
    using p
    by (simp add: AnyWithCancel_eq AnyWithTimeout_eq AnyWithDeadline_eq
          log_of_cancel_checks killed_cancel Any_never_checks Any_not_killed)
qed

lemma slots_one_failing:
  "slots [0] Background NewState [Failing ''e''] = [Some (ErrorString ''e'')]"
  by (simp add: slots_def goroutine_def store_def Failing_def)

theorem success_never_zero_witness:
  "slots [0] Background NewState [Failing ''e''] = [Some (ErrorString ''e'')]
   \<and> success_of (parallel [0] Background NewState [Failing ''e'']) = 4
   \<and> check_calls (log_of (Any [0] [] Background NewState logChecker (Some JustPrint) [Failing ''e''])) = 0
   \<and> \<not> killed (fst (Any [0] [] Background NewState logChecker (Some JustPrint) [Failing ''e'']))"
  using success_never_zero [of "[0]" Background NewState "[Failing ''e'']" "[]" logChecker "Some JustPrint" 0 0]
  by (simp add: slots_one_failing)

section \<open>The compaction loop on fewer than four failures\<close>

text \<open>
  C10: whenever fewer than four slots are non-nil when they are scanned (the call with no
  work item included), the compaction loop of \<open>parallel\<close> reaches a slice expression
  that is out of range, \<open>errs[1:]\<close> on an empty slice; the deferred handler of \<open>parallel\<close>
  recovers the panic, and the error returned is the single error with the message
  \<open>scope recovered: runtime error: slice bounds out of range [1:0]\<close>, not the join of the
  slots.
\<close>

theorem compaction_fault_below_four:
  "length (non_nil (slots sched ctx state f)) < 4 \<Longrightarrow>
     snd (compact (length f) (rev (scan_nil 0 (slots sched ctx state f) (replicate 4 0)))
            (slots sched ctx state f)) = Some (slice_low_panic 1 0)
   \<and> returns (parallel sched ctx state f)
   \<and> err_of (parallel sched ctx state f) = Some (recovered (slice_low_panic 1 0))
   \<and> ErrorMsg (recovered (slice_low_panic 1 0))
       = ''scope recovered: runtime error: slice bounds out of range [1:0]''
   \<and> err_of (parallel sched ctx state f) \<noteq> Join (slots sched ctx state f)"
proof -
  assume few: "length (non_nil (slots sched ctx state f)) < 4"
  have "snd (compact (length (slots sched ctx state f))
          (rev (scan_nil 0 (slots sched ctx state f) (replicate 4 0))) (slots sched ctx state f))
        = Some (slice_low_panic 1 0)"
    using few by (simp add: compact_parallel)
  then have loop: "snd (compact (length f)
          (rev (scan_nil 0 (slots sched ctx state f) (replicate 4 0))) (slots sched ctx state f))
        = Some (slice_low_panic 1 0)"
    by (simp add: length_slots)
  from parallel_result [of sched ctx state f] few
  have err: "returns (parallel sched ctx state f)
      \<and> err_of (parallel sched ctx state f) = Some (recovered (slice_low_panic 1 0))"
    by (auto simp: returns_def err_of_def)
  have msg: "ErrorMsg (recovered (slice_low_panic 1 0))
       = ''scope recovered: runtime error: slice bounds out of range [1:0]''"
    unfolding recovered_def slice_low_panic_1_0 by simp
  have "Join (slots sched ctx state f) \<noteq> Some (recovered (slice_low_panic 1 0))"
    by (simp add: Join_def recovered_def)
  with err have "err_of (parallel sched ctx state f) \<noteq> Join (slots sched ctx state f)"
    by simp
  with loop err msg show ?thesis by simp
qed

lemma slots_one_faulting:
  "slots [0, 1] Background NewState [AddOne, Faulting ''boom'']
     = [None, Some (ErrorString ''scope recovered: boom'')]"
  by (simp add: slots_def goroutine_def store_def AddOne_def Faulting_def recovered_def)

theorem compaction_fault_below_four_witness:
  "length (non_nil (slots [0, 1] Background NewState [AddOne, Faulting ''boom''])) < 4
   \<and> err_of (parallel [0, 1] Background NewState [AddOne, Faulting ''boom''])
       = Some (ErrorString ''scope recovered: runtime error: slice bounds out of range [1:0]'')"
proof -
  have few: "length (non_nil (slots [0, 1] Background NewState [AddOne, Faulting ''boom''])) < 4"
    unfolding slots_one_faulting by simp
  from compaction_fault_below_four [OF few]
  have "err_of (parallel [0, 1] Background NewState [AddOne, Faulting ''boom''])
          = Some (ErrorString ''scope recovered: runtime error: slice bounds out of range [1:0]'')"
    unfolding recovered_def slice_low_panic_1_0 by simp
  with few show ?thesis by simp
qed

section \<open>The sequential runner stops at the first failure\<close>

lemma all_succeed_loop:
  "all_succeed ctx f state = Some state' \<Longrightarrow>
   sequence_loop ctx i f state = (state', map Invoked [i..<i + length f], Inr None)"
proof (induction f arbitrary: i state)
  case Nil
  then show ?case by simp
next
  case (Cons w f)
  from Cons.prems obtain s1 where w: "w ctx state = Return s1 None"
    and rest: "all_succeed ctx f s1 = Some state'"
    by (auto split: outcome.splits option.splits)
  from Cons.IH [OF rest, of "Suc i"] w show ?case
    by (simp add: upt_rec)
qed

lemma sequence_loop_append:
  "sequence_loop ctx i xs state = (s1, l1, Inr None) \<Longrightarrow>
   sequence_loop ctx i (xs @ ys) state =
     (case sequence_loop ctx (i + length xs) ys s1 of (s2, l2, res) \<Rightarrow> (s2, l1 @ l2, res))"
proof (induction xs arbitrary: i state l1)
  case Nil
  then show ?case by (simp split: prod.splits)
next
  case (Cons w xs)
  from Cons.prems obtain s0 where w: "w ctx state = Return s0 None"
    by (auto split: outcome.splits option.splits prod.splits)
  obtain s' l' r' where r: "sequence_loop ctx (Suc i) xs s0 = (s', l', r')"
    by (cases "sequence_loop ctx (Suc i) xs s0") auto
  from Cons.prems w r have eqs: "s' = s1" "l1 = Invoked i # l'" "r' = Inr None" by simp_all
  from r eqs have "sequence_loop ctx (Suc i) xs s0 = (s1, l', Inr None)" by simp
  from Cons.IH [OF this] w eqs show ?case by (simp split: prod.splits)
qed

lemma sequence_loop_at:
  assumes k: "k < length f"
    and pre: "all_succeed ctx (take k f) state = Some s_k"
  shows "sequence_loop ctx 0 f state =
     (case sequence_loop ctx k ((f ! k) # drop (Suc k) f) s_k of
        (s2, l2, res) \<Rightarrow> (s2, map Invoked [0..<k] @ l2, res))"
proof -
  define rest where "rest = (f ! k) # drop (Suc k) f"
  have f: "f = take k f @ rest"
    using k by (simp add: rest_def id_take_nth_drop)
  have len: "length (take k f) = k" using k by simp
  from all_succeed_loop [OF pre, of 0] len
  have "sequence_loop ctx 0 (take k f) state = (s_k, map Invoked [0..<k], Inr None)" by simp
  from sequence_loop_append [OF this, of rest] len
  have "sequence_loop ctx 0 (take k f @ rest) state =
     (case sequence_loop ctx k rest s_k of
        (s2, l2, res) \<Rightarrow> (s2, map Invoked [0..<k] @ l2, res))"
    by simp
  moreover have "sequence_loop ctx 0 f state = sequence_loop ctx 0 (take k f @ rest) state"
    by (rule arg_cong [where f = "\<lambda>x. sequence_loop ctx 0 x state"]) (rule f)
  ultimately show ?thesis by (simp only: rest_def)
qed

lemma first_failure_exists:
  "(\<exists>state'. all_succeed ctx f state = Some state')
   \<or> (\<exists>k s_k. k < length f \<and> all_succeed ctx (take k f) state = Some s_k
        \<and> ((\<exists>state' e. (f ! k) ctx s_k = Return state' (Some e))
           \<or> (\<exists>state' r. (f ! k) ctx s_k = Panic state' r)))"
proof (induction f arbitrary: state)
  case Nil
  show ?case by simp
next
  case (Cons w f)
  show ?case
  proof (cases "w ctx state")
    case (Panic s1 r)
    then have "0 < length (w # f) \<and> all_succeed ctx (take 0 (w # f)) state = Some state
        \<and> ((\<exists>state' e. ((w # f) ! 0) ctx state = Return state' (Some e))
           \<or> (\<exists>state' r. ((w # f) ! 0) ctx state = Panic state' r))"
      by simp
    then show ?thesis by blast
  next
    case (Return s1 err)
    show ?thesis
    proof (cases err)
      case (Some e)
      with Return have "0 < length (w # f) \<and> all_succeed ctx (take 0 (w # f)) state = Some state
        \<and> ((\<exists>state' e. ((w # f) ! 0) ctx state = Return state' (Some e))
           \<or> (\<exists>state' r. ((w # f) ! 0) ctx state = Panic state' r))"
        by simp
      then show ?thesis by blast
    next
      case None
      from Cons.IH [of s1] show ?thesis
      proof
        assume "\<exists>state'. all_succeed ctx f s1 = Some state'"
        with Return None show ?thesis by simp
      next
        assume "\<exists>k s_k. k < length f \<and> all_succeed ctx (take k f) s1 = Some s_k
          \<and> ((\<exists>state' e. (f ! k) ctx s_k = Return state' (Some e))
             \<or> (\<exists>state' r. (f ! k) ctx s_k = Panic state' r))"
        then obtain k s_k where k: "k < length f"
          and pre: "all_succeed ctx (take k f) s1 = Some s_k"
          and last: "(\<exists>state' e. (f ! k) ctx s_k = Return state' (Some e))
             \<or> (\<exists>state' r. (f ! k) ctx s_k = Panic state' r)"
          by blast
        have "Suc k < length (w # f) \<and> all_succeed ctx (take (Suc k) (w # f)) state = Some s_k
          \<and> ((\<exists>state' e. ((w # f) ! Suc k) ctx s_k = Return state' (Some e))
             \<or> (\<exists>state' r. ((w # f) ! Suc k) ctx s_k = Panic state' r))"
          using k pre last Return None by simp
        then show ?thesis by blast
      qed
    qed
  qed
qed

text \<open>
  C5: the sequential runner calls the items strictly in list order and stops at the first
  failure. When every item succeeds, it returns no failure, having invoked every item once,
  in order, each on the state the one before left. When the items before position \<open>k\<close>
  succeed and the item at \<open>k\<close> returns an error, it returns that error; when that item
  panics, it returns the failure built from the panic; in both cases it has invoked the
  items at positions 0 to \<open>k\<close>, once and in order, and no later one, and it leaves the state
  as the item at \<open>k\<close> left it. One of these cases holds for every list and state.
\<close>

theorem sequence_stops_at_first_failure:
  "(\<forall>state'. all_succeed ctx f state = Some state'
      \<longrightarrow> sequence ctx state f = (state', map Invoked [0..<length f], None))
   \<and> (\<forall>k s_k state' e.
        k < length f \<and> all_succeed ctx (take k f) state = Some s_k
          \<and> (f ! k) ctx s_k = Return state' (Some e)
      \<longrightarrow> sequence ctx state f = (state', map Invoked [0..<Suc k], Some e))
   \<and> (\<forall>k s_k state' r.
        k < length f \<and> all_succeed ctx (take k f) state = Some s_k
          \<and> (f ! k) ctx s_k = Panic state' r
      \<longrightarrow> sequence ctx state f = (state', map Invoked [0..<Suc k], Some (recovered r)))
   \<and> ((\<exists>state'. all_succeed ctx f state = Some state')
      \<or> (\<exists>k s_k. k < length f \<and> all_succeed ctx (take k f) state = Some s_k
           \<and> ((\<exists>state' e. (f ! k) ctx s_k = Return state' (Some e))
              \<or> (\<exists>state' r. (f ! k) ctx s_k = Panic state' r))))"
proof -
  have a: "sequence ctx state f = (state', map Invoked [0..<length f], None)"
    if "all_succeed ctx f state = Some state'" for state'
    using all_succeed_loop [OF that, of 0] by (simp add: sequence_def)
  have b: "sequence ctx state f = (state', map Invoked [0..<Suc k], Some e)"
    if "k < length f" "all_succeed ctx (take k f) state = Some s_k"
       "(f ! k) ctx s_k = Return state' (Some e)" for k s_k state' e
    using sequence_loop_at [OF that(1) that(2)] that(3) by (simp add: sequence_def)
  have c: "sequence ctx state f = (state', map Invoked [0..<Suc k], Some (recovered r))"
    if "k < length f" "all_succeed ctx (take k f) state = Some s_k"
       "(f ! k) ctx s_k = Panic state' r" for k s_k state' r
    using sequence_loop_at [OF that(1) that(2)] that(3) by (simp add: sequence_def)
  from a b c first_failure_exists [of ctx f state] show ?thesis by blast
qed

theorem sequence_stops_at_first_failure_witness:
  "all_succeed Background [AddOne, AddTwo, SubOne] NewState = Some \<lparr>number = 2\<rparr>
   \<and> sequence Background NewState [AddOne, AddTwo, SubOne]
     = (\<lparr>number = 2\<rparr>, [Invoked 0, Invoked 1, Invoked 2], None)
   \<and> all_succeed Background (take 1 [AddOne, Failing ''stop'', AddTwo]) NewState = Some \<lparr>number = 1\<rparr>
   \<and> sequence Background NewState [AddOne, Failing ''stop'', AddTwo]
     = (\<lparr>number = 1\<rparr>, [Invoked 0, Invoked 1], Some (ErrorString ''stop''))
   \<and> sequence Background NewState [AddOne, Faulting ''boom'', AddTwo]
     = (\<lparr>number = 1\<rparr>, [Invoked 0, Invoked 1], Some (ErrorString ''scope recovered: boom''))"
proof -
  let ?s = "\<lparr>number = 1\<rparr>"
  have h1: "all_succeed Background [AddOne, AddTwo, SubOne] NewState = Some \<lparr>number = 2\<rparr>"
    by (simp add: AddOne_def AddTwo_def SubOne_def NewState_def)
  have h2: "1 < length [AddOne, Failing ''stop'', AddTwo]
      \<and> all_succeed Background (take 1 [AddOne, Failing ''stop'', AddTwo]) NewState = Some ?s
      \<and> ([AddOne, Failing ''stop'', AddTwo] ! 1) Background ?s = Return ?s (Some (ErrorString ''stop''))"
    by (simp add: AddOne_def Failing_def NewState_def)
  have h3: "1 < length [AddOne, Faulting ''boom'', AddTwo]
      \<and> all_succeed Background (take 1 [AddOne, Faulting ''boom'', AddTwo]) NewState = Some ?s
      \<and> ([AddOne, Faulting ''boom'', AddTwo] ! 1) Background ?s = Panic ?s ''boom''"
    by (simp add: AddOne_def Faulting_def NewState_def)
  from sequence_stops_at_first_failure [of Background "[AddOne, AddTwo, SubOne]" NewState] h1
  have a: "sequence Background NewState [AddOne, AddTwo, SubOne]
      = (\<lparr>number = 2\<rparr>, map Invoked [0..<length [AddOne, AddTwo, SubOne]], None)"
    by blast
  from sequence_stops_at_first_failure [of Background "[AddOne, Failing ''stop'', AddTwo]" NewState] h2
  have b: "sequence Background NewState [AddOne, Failing ''stop'', AddTwo]
      = (?s, map Invoked [0..<Suc 1], Some (ErrorString ''stop''))"
    by blast
  from sequence_stops_at_first_failure [of Background "[AddOne, Faulting ''boom'', AddTwo]" NewState] h3
  have c: "sequence Background NewState [AddOne, Faulting ''boom'', AddTwo]
      = (?s, map Invoked [0..<Suc 1], Some (recovered ''boom''))"
    by blast
  have u3: "map Invoked [0..<length [AddOne, AddTwo, SubOne]] = [Invoked 0, Invoked 1, Invoked 2]"
    by (simp add: upt_rec)
  have u2: "map Invoked [0..<Suc 1] = [Invoked 0, Invoked 1]"
    by (simp add: upt_rec)
  from h1 h2 a b c show ?thesis
    unfolding u3 u2 recovered_def by simp
qed

section \<open>Cleanup runs once, after the callback, when the callback returns\<close>































lemma orchestrator_runs_example:
  "map (\<lambda>run. snd (snd run))
     (orchestrator_runs [1] [0] Background NewState 5 9 logChecker (Some ResetAndPrint)
        [AddOne, Failing ''e''])
     = [(Returns \<lparr>number = 0\<rparr>, [Invoked 0, Invoked 1, Checked (Some (ErrorString ''e'')), CleanedUp]),
        (Returns \<lparr>number = 0\<rparr>, [Invoked 0, Invoked 1, Checked (Some (ErrorString ''e'')), CleanedUp, Cancelled]),
        (Returns \<lparr>number = 0\<rparr>, [Invoked 0, Invoked 1, Checked (Some (ErrorString ''e'')), CleanedUp, Cancelled]),
        (Returns \<lparr>number = 0\<rparr>, [Invoked 0, Invoked 1, Checked (Some (ErrorString ''e'')), CleanedUp, Cancelled]),
        (Returns \<lparr>number = 0\<rparr>, [Invoked 1, Invoked 0,
         Checked (Some (ErrorString ''scope recovered: runtime error: slice bounds out of range [1:0]'')),
         CleanedUp]),
        (Returns \<lparr>number = 0\<rparr>, [Invoked 1, Invoked 0,
         Checked (Some (ErrorString ''scope recovered: runtime error: slice bounds out of range [1:0]'')),
         CleanedUp, Cancelled]),
        (Returns \<lparr>number = 0\<rparr>, [Invoked 1, Invoked 0,
         Checked (Some (ErrorString ''scope recovered: runtime error: slice bounds out of range [1:0]'')),
         CleanedUp, Cancelled]),
        (Returns \<lparr>number = 0\<rparr>, [Invoked 1, Invoked 0,
         Checked (Some (ErrorString ''scope recovered: runtime error: slice bounds out of range [1:0]'')),
         CleanedUp, Cancelled]),
        (Returns \<lparr>number = 0\<rparr>, [Invoked 1, Invoked 0, CleanedUp]),
        (Returns \<lparr>number = 0\<rparr>, [Invoked 1, Invoked 0, CleanedUp, Cancelled]),
        (Returns \<lparr>number = 0\<rparr>, [Invoked 1, Invoked 0, CleanedUp, Cancelled]),
        (Returns \<lparr>number = 0\<rparr>, [Invoked 1, Invoked 0, CleanedUp, Cancelled])]"
  by code_simp



text \<open>
  The condition on the tasks is there because nothing joins them. Here the one task of a
  batch ends after \<open>parallel\<close> has returned: its store fails, the process ends, and neither
  the callback nor the hook is called. With no task left running the same call reports
  and cleans up.
\<close>

theorem late_failure_before_cleanup:
  "All_scope [] [0] Background NewState logChecker (Some JustPrint) [Failing ''e'']
     = (Killed ''runtime error: index out of range [0] with length 0'', [])
   \<and> Any [] [0] Background NewState logChecker (Some JustPrint) [Faulting ''boom'']
     = (Killed ''runtime error: index out of range [0] with length 0'', [])
   \<and> All_scope [] [] Background NewState logChecker (Some JustPrint) [Failing ''e'']
     = (Returns NewState,
        [Checked (Some (ErrorString ''scope recovered: runtime error: slice bounds out of range [1:0]'')),
         CleanedUp])"
  by code_simp

section \<open>The compaction loop on four failures or more\<close>

text \<open>
  When at least four slots are non-nil as they are scanned, the compaction loop ends
  without a panic, and the error \<open>parallel\<close> returns joins the non-nil slots but the first
  four, in order; it is nil exactly when four slots were non-nil.
\<close>

theorem aggregate_drops_first_four:
  "4 \<le> length (non_nil (slots sched ctx state f)) \<Longrightarrow>
     returns (parallel sched ctx state f)
   \<and> err_of (parallel sched ctx state f)
       = Join (map Some (drop 4 (non_nil (slots sched ctx state f))))
   \<and> (err_of (parallel sched ctx state f) = None
        \<longleftrightarrow> length (non_nil (slots sched ctx state f)) = 4)"
proof -
  assume many: "4 \<le> length (non_nil (slots sched ctx state f))"
  from parallel_result [of sched ctx state f] many
  have r: "returns (parallel sched ctx state f)
    \<and> err_of (parallel sched ctx state f)
       = Join (map Some (drop 4 (non_nil (slots sched ctx state f))))"
    by (auto simp: returns_def err_of_def)
  have nn: "non_nil (map Some es) = es" for es
    by (induction es) simp_all
  have "Join (map Some (drop 4 (non_nil (slots sched ctx state f)))) = None
        \<longleftrightarrow> length (non_nil (slots sched ctx state f)) = 4"
    using many by (auto simp: Join_def nn)
  with r show ?thesis by simp
qed

lemma slots_five_failing:
  "slots [0, 1, 2, 3, 4] Background NewState
     [Failing ''e1'', Failing ''e2'', Failing ''e3'', Failing ''e4'', Failing ''e5'']
   = [Some (ErrorString ''e1''), Some (ErrorString ''e2''), Some (ErrorString ''e3''),
      Some (ErrorString ''e4''), Some (ErrorString ''e5'')]"
  by code_simp

theorem aggregate_drops_first_four_witness:
  "4 \<le> length (non_nil (slots [0, 1, 2, 3, 4] Background NewState
        [Failing ''e1'', Failing ''e2'', Failing ''e3'', Failing ''e4'', Failing ''e5'']))
   \<and> err_of (parallel [0, 1, 2, 3, 4] Background NewState
        [Failing ''e1'', Failing ''e2'', Failing ''e3'', Failing ''e4'', Failing ''e5''])
     = Some (JoinError [ErrorString ''e5''])"
proof -
  have many: "4 \<le> length (non_nil (slots [0, 1, 2, 3, 4] Background NewState
        [Failing ''e1'', Failing ''e2'', Failing ''e3'', Failing ''e4'', Failing ''e5'']))"
    unfolding slots_five_failing by simp
  from aggregate_drops_first_four [OF many]
  have "err_of (parallel [0, 1, 2, 3, 4] Background NewState
        [Failing ''e1'', Failing ''e2'', Failing ''e3'', Failing ''e4'', Failing ''e5''])
     = Some (JoinError [ErrorString ''e5''])"
    unfolding slots_five_failing by (simp add: Join_def)
  with many show ?thesis by simp
qed

section \<open>Faults of tasks that end before the slots are read\<close>

lemma goroutine_other_slot:
  "goroutine ctx j w state errs = Inr (state', errs') \<Longrightarrow> i \<noteq> j \<Longrightarrow> errs' ! i = errs ! i"
  by (auto simp: goroutine_def store_def split: outcome.splits option.splits if_splits)

lemma run_tasks_other_slot:
  "run_tasks ctx f sched state errs = Inr (state', log, errs') \<Longrightarrow> i \<notin> set sched \<Longrightarrow>
   errs' ! i = errs ! i"
proof (induction sched arbitrary: state errs state' log errs')
  case Nil
  then show ?case by simp
next
  case (Cons j sched)
  from Cons.prems(2) have ij: "i \<noteq> j" and notin: "i \<notin> set sched" by auto
  show ?case
  proof (cases "j < length f")
    case True
    with Cons.prems(1) obtain s1 e1 where g: "goroutine ctx j (f ! j) state errs = Inr (s1, e1)"
      by (auto split: sum.splits)
    with Cons.prems(1) True obtain s2 l2 e2 where r: "run_tasks ctx f sched s1 e1 = Inr (s2, l2, e2)"
      by (auto split: sum.splits)
    from Cons.prems(1) True g r have "errs' = e2" by simp
    moreover have "e2 ! i = e1 ! i" by (rule Cons.IH [OF r notin])
    moreover have "e1 ! i = errs ! i" by (rule goroutine_other_slot [OF g ij])
    ultimately show ?thesis by simp
  next
    case False
    with Cons.prems(1) have "run_tasks ctx f sched state errs = Inr (state', log, errs')" by simp
    from Cons.IH [OF this notin] show ?thesis .
  qed
qed

lemma run_tasks_append:
  "run_tasks ctx f (a @ b) state errs =
     (case run_tasks ctx f a state errs of
        Inl r \<Rightarrow> Inl r
      | Inr (s1, l1, e1) \<Rightarrow>
          (case run_tasks ctx f b s1 e1 of
             Inl r \<Rightarrow> Inl r
           | Inr (s2, l2, e2) \<Rightarrow> Inr (s2, l1 @ l2, e2)))"
  by (induction a arbitrary: state errs) (simp_all split: sum.splits prod.splits)

text \<open>
  In the parallel runner a task that ends before the slots are read turns a panic of its
  item into the failure in its slot: when the task for position \<open>i\<close> runs after the tasks
  \<open>pre\<close>, its item panics with \<open>r\<close> there, and no later task is for position \<open>i\<close>, the slot
  \<open>i\<close> holds the failure built from \<open>r\<close> when the slots are read.
\<close>

theorem task_fault:
  assumes i: "i < length f"
    and post: "i \<notin> set post"
    and pre: "run_tasks ctx f pre state (replicate (length f) None) = Inr (s_i, log_i, errs_i)"
    and fault: "(f ! i) ctx s_i = Panic state' r"
  shows "slots (pre @ i # post) ctx state f ! i = Some (recovered r)"
proof -
  from run_tasks_returns [of "replicate (length f) None" f ctx pre state] pre
  have len: "length errs_i = length f" by auto
  have g: "goroutine ctx i (f ! i) s_i errs_i = Inr (state', errs_i[i := Some (recovered r)])"
    using fault i len by (simp add: goroutine_def store_def)
  have "length (errs_i[i := Some (recovered r)]) = length f" using len by simp
  from run_tasks_returns [OF this, of ctx post state'] obtain s2 l2 e2 where
    r: "run_tasks ctx f post state' (errs_i[i := Some (recovered r)]) = Inr (s2, l2, e2)"
    by blast
  have "e2 ! i = (errs_i[i := Some (recovered r)]) ! i"
    by (rule run_tasks_other_slot [OF r post])
  then have "e2 ! i = Some (recovered r)" using i len by simp
  moreover have "slots (pre @ i # post) ctx state f = e2"
    using i pre g r by (simp add: slots_def run_tasks_append)
  ultimately show ?thesis by simp
qed

theorem task_fault_witness:
  "slots [0, 1, 2] Background NewState [AddOne, Faulting ''boom'', AddTwo] ! 1
     = Some (ErrorString ''scope recovered: boom'')"
proof -
  let ?f = "[AddOne, Faulting ''boom'', AddTwo]"
  let ?s = "\<lparr>number = 1\<rparr>"
  have i: "1 < length ?f" by simp
  have post: "1 \<notin> set [2::nat]" by simp
  have pre: "run_tasks Background ?f [0] NewState (replicate (length ?f) None)
      = Inr (?s, [Invoked 0], [None, None, None])"
    by (simp add: goroutine_def AddOne_def NewState_def numeral_3_eq_3)
  have fault: "(?f ! 1) Background ?s = Panic ?s ''boom''"
    by (simp add: Faulting_def)
  from task_fault [OF i post pre fault] show ?thesis
    by (simp add: recovered_def)
qed

section \<open>The runs of the example program\<close>

text \<open>
  The three items \<open>AddOne\<close>, \<open>AddTwo\<close>, \<open>SubOne\<close> run in sequence on a fresh state leave the
  counter at 2 with no failure; with \<open>ResetAndPrint\<close> the hook sees 2 and resets; with
  \<open>JustPrint\<close> three calls in a row on the same state leave 2, 4 and 6.
\<close>

theorem readme_scenarios:
  "sequence Background NewState [AddOne, AddTwo, SubOne]
     = (\<lparr>number = 2\<rparr>, [Invoked 0, Invoked 1, Invoked 2], None)
   \<and> Sequence Background NewState logChecker (Some ResetAndPrint) [AddOne, AddTwo, SubOne]
     = (Returns \<lparr>number = 0\<rparr>, [Invoked 0, Invoked 1, Invoked 2, CleanedUp])
   \<and> Sequence Background NewState logChecker (Some JustPrint) [AddOne, AddTwo, SubOne]
     = (Returns \<lparr>number = 2\<rparr>, [Invoked 0, Invoked 1, Invoked 2, CleanedUp])
   \<and> Sequence Background \<lparr>number = 2\<rparr> logChecker (Some JustPrint) [AddOne, AddTwo, SubOne]
     = (Returns \<lparr>number = 4\<rparr>, [Invoked 0, Invoked 1, Invoked 2, CleanedUp])
   \<and> Sequence Background \<lparr>number = 4\<rparr> logChecker (Some JustPrint) [AddOne, AddTwo, SubOne]
     = (Returns \<lparr>number = 6\<rparr>, [Invoked 0, Invoked 1, Invoked 2, CleanedUp])"
  by code_simp

section \<open>Where the code departs from its contract\<close>

text \<open>
  The theorems of this section evaluate the code at one input each. In all of them the
  calls are made on the example state with the logging callback; in the first four every
  task has ended before the slots are read, which is the schedule the contract describes,
  and none is left running.
\<close>

text \<open>
  C1: in a batch of N items of which exactly one panics and the others succeed, \<open>All\<close>
  should hand the error callback a failure built from that panic, and the success count
  should be N - 1. Here N is 3: the slot of the panicking item does hold the failure built
  from \<open>boom\<close>, but the success count returned is 6, not 2, and the error returned, and
  handed to the callback, is built from the slice failure of the compaction loop, not from
  \<open>boom\<close>.
\<close>

theorem one_fault_among_three:
  "parallel [0, 1, 2] Background NewState [AddOne, Faulting ''boom'', AddTwo]
     = Inr (\<lparr>number = 3\<rparr>, [Invoked 0, Invoked 1, Invoked 2], 6,
            Some (ErrorString ''scope recovered: runtime error: slice bounds out of range [1:0]''))
   \<and> slots [0, 1, 2] Background NewState [AddOne, Faulting ''boom'', AddTwo]
     = [None, Some (ErrorString ''scope recovered: boom''), None]
   \<and> log_of (All_scope [0, 1, 2] [] Background NewState logChecker None [AddOne, Faulting ''boom'', AddTwo])
     = [Invoked 0, Invoked 1, Invoked 2,
        Checked (Some (ErrorString ''scope recovered: runtime error: slice bounds out of range [1:0]''))]"
  by code_simp

text \<open>
  C2: \<open>Any\<close> should call the error callback exactly when every item failed, and \<open>All\<close>
  whenever an item failed. Here both items of a batch fail and \<open>Any\<close> does not call the
  callback (the success count returned is 4); and in a batch of one success and four
  failures \<open>All\<close> does not call it either (the four failures are the ones the compaction
  loop deletes).
\<close>

theorem all_items_fail_any_is_silent:
  "parallel [0, 1] Background NewState [Failing ''e1'', Failing ''e2'']
     = Inr (NewState, [Invoked 0, Invoked 1], 4,
            Some (ErrorString ''scope recovered: runtime error: slice bounds out of range [1:0]''))
   \<and> log_of (Any [0, 1] [] Background NewState logChecker (Some JustPrint) [Failing ''e1'', Failing ''e2''])
     = [Invoked 0, Invoked 1, CleanedUp]
   \<and> log_of (All_scope [0, 1, 2, 3, 4] [] Background NewState logChecker (Some JustPrint)
        [AddOne, Failing ''e1'', Failing ''e2'', Failing ''e3'', Failing ''e4''])
     = [Invoked 0, Invoked 1, Invoked 2, Invoked 3, Invoked 4, CleanedUp]"
  by code_simp

text \<open>
  C3: with no work item, no orchestrator should call the error callback, and each should
  call the cleanup hook once. \<open>Sequence\<close> and \<open>Any\<close> do so; \<open>All\<close> calls the callback, with the
  error built from the slice failure of the compaction loop.
\<close>

theorem no_items_all_reports:
  "log_of (All_scope [] [] Background NewState logChecker (Some JustPrint) [])
     = [Checked (Some (ErrorString ''scope recovered: runtime error: slice bounds out of range [1:0]'')),
        CleanedUp]
   \<and> log_of (Any [] [] Background NewState logChecker (Some JustPrint) []) = [CleanedUp]
   \<and> log_of (Sequence Background NewState logChecker (Some JustPrint) []) = [CleanedUp]"
  by code_simp

text \<open>
  C4: the error \<open>parallel\<close> returns should join exactly the non-nil slots, in order, and be
  nil when there is none. With two failures it is the error built from the slice failure
  instead of the join of the two; with five failures it joins the fifth only; with no
  failure at all it is not nil.
\<close>

theorem aggregate_loses_failures:
  "err_of (parallel [0, 1] Background NewState [Failing ''e1'', Failing ''e2''])
     = Some (ErrorString ''scope recovered: runtime error: slice bounds out of range [1:0]'')
   \<and> Join (slots [0, 1] Background NewState [Failing ''e1'', Failing ''e2''])
     = Some (JoinError [ErrorString ''e1'', ErrorString ''e2''])
   \<and> err_of (parallel [0, 1, 2, 3, 4] Background NewState
        [Failing ''e1'', Failing ''e2'', Failing ''e3'', Failing ''e4'', Failing ''e5''])
     = Some (JoinError [ErrorString ''e5''])
   \<and> err_of (parallel [0] Background NewState [AddOne])
     = Some (ErrorString ''scope recovered: runtime error: slice bounds out of range [1:0]'')"
  by code_simp

text \<open>
  C6: no panic should leave a runner other than as a returned failure. Here the one task
  of a batch has not ended when \<open>parallel\<close> reads the slots. \<open>parallel\<close> returns, and
  the compaction loop has left \<open>errs\<close> empty. When the item then panics (or returns an
  error), the store into \<open>errs[0]\<close> fails, in the task and again in the handler the task
  deferred, and the task ends in a panic that nothing recovers.
\<close>

theorem late_fault_ends_process:
  "parallel [] Background NewState [Faulting ''boom'']
     = Inr (NewState, [], 5,
            Some (ErrorString ''scope recovered: runtime error: slice bounds out of range [1:0]''))
   \<and> errs_left [] Background NewState [Faulting ''boom''] = []
   \<and> late_task [] Background NewState [Faulting ''boom''] 0 NewState
     = Inl ''runtime error: index out of range [0] with length 0''
   \<and> late_task [] Background NewState [Failing ''e''] 0 NewState
     = Inl ''runtime error: index out of range [0] with length 0''"
  by code_simp

text \<open>
  C8: \<open>parallel\<close> should wait for every task it launched before it counts successes. Here
  it returns with the one task it launched not yet run: the slot is nil, no item was
  invoked, and the state is the one passed in, although the item changes the state when
  it runs.
\<close>

theorem returns_before_task_ran:
  "parallel [] Background NewState [AddOne]
     = Inr (NewState, [], 5,
            Some (ErrorString ''scope recovered: runtime error: slice bounds out of range [1:0]''))
   \<and> slots [] Background NewState [AddOne] = [None]
   \<and> AddOne Background NewState = Return \<lparr>number = 1\<rparr> None"
  by code_simp

end
